theory Spec2Isabelle
  imports Main "HOL-Library.AList"
begin

section \<open>Python strings\<close>

text \<open>
  A Python 3 \<open>str\<close> is a sequence of Unicode code points, so a string is a list of
  natural numbers here.  A literal is written \<open>S ''abc''\<close>; the apostrophe is code
  point 39, the percent sign 37, line feed 10 and carriage return 13.
\<close>

type_synonym pystr = "nat list"

abbreviation (input) S :: "string \<Rightarrow> pystr" where
  "S s \<equiv> map of_char s"

definition DELIMITER :: nat where
  "DELIMITER = 37"

definition LF :: nat where
  "LF = 10"

definition CR :: nat where
  "CR = 13"

text \<open>
  \<open>str.strip()\<close> without argument removes leading and trailing white space, the code
  points for which CPython's \<open>_PyUnicode_IsWhitespace\<close> holds.
\<close>

definition isspace :: "nat \<Rightarrow> bool" where
  "isspace c \<longleftrightarrow>
     (9 \<le> c \<and> c \<le> 13) \<or> (28 \<le> c \<and> c \<le> 32) \<or> c = 133 \<or> c = 160 \<or> c = 5760 \<or>
     (8192 \<le> c \<and> c \<le> 8202) \<or> c = 8232 \<or> c = 8233 \<or> c = 8239 \<or> c = 8287 \<or>
     c = 12288"

definition strip :: "pystr \<Rightarrow> pystr" where
  "strip s = rev (dropWhile isspace (rev (dropWhile isspace s)))"

text \<open>
  \<open>s.split(sep, maxsplit)\<close> for a separator of one character: scan from the left, cut
  at each separator while splits remain, and put the rest of the string into the last
  part.  A negative \<open>maxsplit\<close> (the default is \<open>-1\<close>) never reaches zero, which is no
  limit.  \<open>cur\<close> is the part being scanned.
\<close>

fun split_scan :: "nat \<Rightarrow> int \<Rightarrow> pystr \<Rightarrow> pystr \<Rightarrow> pystr list" where
  "split_scan sep maxsplit cur [] = [cur]"
| "split_scan sep maxsplit cur (c # cs) =
     (if maxsplit = 0 then [cur @ c # cs]
      else if c = sep then cur # split_scan sep (maxsplit - 1) [] cs
      else split_scan sep maxsplit (cur @ [c]) cs)"

definition split_max :: "nat \<Rightarrow> int \<Rightarrow> pystr \<Rightarrow> pystr list" where
  "split_max sep maxsplit s = split_scan sep maxsplit [] s"

definition split :: "nat \<Rightarrow> pystr \<Rightarrow> pystr list" where
  "split sep s = split_max sep (- 1) s"

text \<open>\<open>s.count(sep)\<close> for a separator of one character.\<close>

definition count :: "pystr \<Rightarrow> nat \<Rightarrow> nat" where
  "count s sep = length (filter (\<lambda>c. c = sep) s)"

text \<open>\<open>sep.join(parts)\<close>, used to say that a split loses no text.\<close>

fun join :: "nat \<Rightarrow> pystr list \<Rightarrow> pystr" where
  "join sep [] = []"
| "join sep [p] = p"
| "join sep (p # q # ps) = p @ sep # join sep (q # ps)"

text \<open>\<open>str(n)\<close> for an integer: its decimal digits, with a minus sign when negative.\<close>

fun str_nat :: "nat \<Rightarrow> pystr" where
  "str_nat n = (if n < 10 then [48 + n] else str_nat (n div 10) @ [48 + n mod 10])"

declare str_nat.simps [simp del]

definition str_int :: "int \<Rightarrow> pystr" where
  "str_int i = (if i < 0 then 45 # str_nat (nat (- i)) else str_nat (nat i))"

section \<open>Records and the data frame\<close>

text \<open>
  A Python \<open>dict\<close> keeps its keys in the order of their first insertion, and a later
  value for a key that is present replaces the earlier one in place: an association
  list built with \<open>AList.update\<close>.  \<open>dict_zip headers parts\<close> is
  \<open>dict(zip(headers, parts))\<close>; both arguments are lists of strings, which are
  hashable, so the construction cannot raise and the \<open>except\<close> branch around it in the
  source is never taken.
\<close>

type_synonym pydict = "(pystr \<times> pystr) list"

definition dict_zip :: "pystr list \<Rightarrow> pystr list \<Rightarrow> pydict" where
  "dict_zip ks vs = fold (\<lambda>(k, v) d. AList.update k v d) (zip ks vs) []"

definition keys :: "pydict \<Rightarrow> pystr list" where
  "keys d = map fst d"

text \<open>
  The data frame built from the list of row dictionaries is represented by that list;
  pandas and openpyxl are outside the program.
\<close>

type_synonym dataframe = "pydict list"

section \<open>The environment\<close>

text \<open>
  What the file system holds at a path:
  \<^item> \<open>NotFound\<close>: nothing, \<open>os.path.exists\<close> is false;
  \<^item> \<open>Unreadable e\<close>: something that exists and that \<open>open\<close> refuses with exception
    \<open>e\<close> (a directory, a file without read permission);
  \<^item> \<open>Readable text\<close>: a text file whose bytes all decode as UTF-8, to \<open>text\<close>;
  \<^item> \<open>PartlyReadable text e\<close>: a file that opens and whose bytes stop decoding: the
    reads hand over the terminated lines of \<open>text\<close>, the part decoded before the
    offending chunk, and the next read raises \<open>e\<close>.  An unfinished last line is never
    handed over, since completing it needs that next read.

  \<open>to_excel env path df\<close> stands for the two library calls of the \<open>try\<close> block,
  \<open>pd.DataFrame(processed_data)\<close> and \<open>df.to_excel(path, ...)\<close>: \<open>None\<close> when the file
  was written, \<open>Some e\<close> when an exception with message \<open>e\<close> was raised.
\<close>

datatype py_exception = OSError | UnicodeDecodeError

datatype input_file =
  NotFound | Unreadable py_exception | Readable pystr | PartlyReadable pystr py_exception

record env =
  files :: "pystr \<Rightarrow> input_file"
  to_excel :: "pystr \<Rightarrow> dataframe \<Rightarrow> pystr option"

text \<open>
  Reading a text file opened with the default \<open>newline=None\<close>: a line ends at
  \<open>\n\<close>, \<open>\r\<close> or \<open>\r\n\<close>, each handed over as \<open>\n\<close>; the last line may lack
  a terminator.  \<open>file_lines [] text\<close> is the sequence of lines that \<open>readline\<close> and
  iteration yield.
\<close>

fun file_lines :: "pystr \<Rightarrow> pystr \<Rightarrow> pystr list" where
  "file_lines cur [] = (if cur = [] then [] else [cur])"
| "file_lines cur [c] = (if c = LF \<or> c = CR then [cur @ [LF]] else [cur @ [c]])"
| "file_lines cur (c # c' # cs) =
     (if c = LF then (cur @ [LF]) # file_lines [] (c' # cs)
      else if c = CR then (cur @ [LF]) # file_lines [] (if c' = LF then cs else c' # cs)
      else file_lines (cur @ [c]) (c' # cs))"

text \<open>The lines handed over before a read fails: those that end with their terminator.\<close>

definition complete_lines :: "pystr \<Rightarrow> pystr list" where
  "complete_lines text = filter (\<lambda>l. l \<noteq> [] \<and> last l = LF) (file_lines [] text)"

section \<open>The messages\<close>

definition msg_not_found :: "pystr \<Rightarrow> pystr" where
  "msg_not_found input_file_path =
     S ''Error: Input file '' @ [39] @ input_file_path @ [39] @ S '' not found.''"

definition msg_header_mismatch :: "int \<Rightarrow> nat \<Rightarrow> pystr" where
  "msg_header_mismatch num_columns len_headers =
     S ''Error: Mismatch between expected columns ('' @ str_int num_columns @
     S '') and headers in file ('' @ str_nat len_headers @ S '').''"

definition msg_repeated_header :: "nat \<Rightarrow> pystr" where
  "msg_repeated_header line_num =
     S ''Warning: Skipping repeated header row on line '' @ str_nat line_num @ S ''.''"

definition msg_extra_delimiters :: "nat \<Rightarrow> pystr" where
  "msg_extra_delimiters line_num =
     S ''Warning on line '' @ str_nat line_num @
     S '': Extra delimiters found. Extra content was added to the last column.''"

definition msg_column_count :: "nat \<Rightarrow> int \<Rightarrow> nat \<Rightarrow> pystr \<Rightarrow> pystr" where
  "msg_column_count line_num num_columns len_parts stripped_line =
     S ''Error on line '' @ str_nat line_num @
     S '': Mismatch in column count. Expected '' @ str_int num_columns @
     S '', found '' @ str_nat len_parts @ S ''. Row: '' @ [39] @ stripped_line @ [39]"

definition msg_no_valid_data :: pystr where
  "msg_no_valid_data = S ''No valid data found to process.''"

definition msg_saved :: "pystr \<Rightarrow> pystr" where
  "msg_saved output_file_path =
     S ''Data successfully saved to '' @ [39] @ output_file_path @ [39] @ S ''.''"

definition msg_save_error :: "pystr \<Rightarrow> pystr" where
  "msg_save_error e = S ''Error saving to Excel file: '' @ e"

section \<open>process_ai_data\<close>

text \<open>The two lists that the function appends to.\<close>

record parse_state =
  warnings :: "pystr list"
  processed_data :: "pydict list"

definition initial :: parse_state where
  "initial = \<lparr>warnings = [], processed_data = []\<rparr>"

text \<open>
  The body of the \<open>for\<close> loop, for one pair \<open>(line_num, line)\<close> of
  \<open>enumerate(f, start=2)\<close>.
\<close>

definition process_line :: "pystr list \<Rightarrow> int \<Rightarrow> bool \<Rightarrow> parse_state \<Rightarrow> nat \<times> pystr \<Rightarrow> parse_state" where
  "process_line headers num_columns ignore_extra_delimiters st ln =
     (let line_num = fst ln;
          stripped_line = strip (snd ln)
      in if stripped_line = [] then st
         else
           let parts_for_check = split DELIMITER stripped_line
           in if parts_for_check = headers
              then st\<lparr>warnings := warnings st @ [msg_repeated_header line_num]\<rparr>
              else
                let st1 = (if ignore_extra_delimiters \<and>
                              int (count stripped_line DELIMITER) > num_columns - 1
                           then st\<lparr>warnings := warnings st @ [msg_extra_delimiters line_num]\<rparr>
                           else st);
                    parts = (if ignore_extra_delimiters
                             then split_max DELIMITER (num_columns - 1) stripped_line
                             else split DELIMITER stripped_line)
                in if int (length parts) = num_columns
                   then st1\<lparr>processed_data := processed_data st1 @ [dict_zip headers parts]\<rparr>
                   else st1\<lparr>warnings := warnings st1 @
                          [msg_column_count line_num num_columns (length parts) stripped_line]\<rparr>)"

text \<open>The header sequence: the first line, stripped and split.\<close>

definition header_of :: "pystr list \<Rightarrow> pystr list" where
  "header_of lines = split DELIMITER (strip (case lines of [] \<Rightarrow> [] | l # _ \<Rightarrow> l))"

text \<open>The loop over the lines after the first, numbered from 2.\<close>

definition parse_lines :: "pystr list \<Rightarrow> int \<Rightarrow> bool \<Rightarrow> pystr list \<Rightarrow> parse_state" where
  "parse_lines headers num_columns ignore_extra_delimiters data_lines =
     foldl (process_line headers num_columns ignore_extra_delimiters) initial
       (List.enumerate 2 data_lines)"

text \<open>
  The function: \<open>Inl e\<close> when exception \<open>e\<close> leaves it, \<open>Inr (df, warnings)\<close> when it
  returns, \<open>df = None\<close> being Python's \<open>None\<close>.  Neither \<open>open\<close> nor a read is inside a
  \<open>try\<close>.  When the reads fail part of the way, \<open>readline\<close> raises unless a whole first
  line was handed over; a header of the wrong length returns before any further read;
  otherwise the \<open>for\<close> loop consumes the lines handed over and the read after them
  raises, so that the lists built so far are lost.
\<close>

definition process_ai_data ::
  "env \<Rightarrow> pystr \<Rightarrow> pystr \<Rightarrow> int \<Rightarrow> bool \<Rightarrow> py_exception + (dataframe option \<times> pystr list)" where
  "process_ai_data env input_file_path output_file_path num_columns ignore_extra_delimiters =
     (case files env input_file_path of
        NotFound \<Rightarrow> Inr (None, [msg_not_found input_file_path])
      | Unreadable e \<Rightarrow> Inl e
      | PartlyReadable text e \<Rightarrow>
          let lines = complete_lines text
          in if lines = [] then Inl e
             else
               let headers = header_of lines
               in if int (length headers) \<noteq> num_columns
                  then Inr (None, [msg_header_mismatch num_columns (length headers)])
                  else Inl e
      | Readable text \<Rightarrow>
          let lines = file_lines [] text;
              headers = header_of lines
          in if int (length headers) \<noteq> num_columns
             then Inr (None, [msg_header_mismatch num_columns (length headers)])
             else
               let st = parse_lines headers num_columns ignore_extra_delimiters (tl lines)
               in if processed_data st = []
                  then Inr (None, warnings st @ [msg_no_valid_data])
                  else (case to_excel env output_file_path (processed_data st) of
                          None \<Rightarrow> Inr (Some (processed_data st),
                                        warnings st @ [msg_saved output_file_path])
                        | Some e \<Rightarrow> Inr (None, warnings st @ [msg_save_error e])))"

section \<open>Example inputs\<close>

text \<open>
  An environment with one entry at \<open>name\<close> and nothing elsewhere, whose spreadsheet
  write has the outcome \<open>written\<close>, and four small input texts.
\<close>

definition example_env :: "pystr \<Rightarrow> input_file \<Rightarrow> pystr option \<Rightarrow> env" where
  "example_env name file written =
     \<lparr>files = (\<lambda>path. if path = name then file else NotFound),
      to_excel = (\<lambda>path df. written)\<rparr>"

definition example_text :: pystr where
  "example_text = S ''a%b%c'' @ [LF] @ S ''1%2%3%4'' @ [LF]"

definition duplicate_text :: pystr where
  "duplicate_text = S ''a%a'' @ [LF] @ S ''1%2'' @ [LF]"

definition plain_text :: pystr where
  "plain_text = S ''a%b'' @ [LF] @ S ''1%2'' @ [LF]"

definition blank_text :: pystr where
  "blank_text = [LF, LF]"

section \<open>Facts about splitting\<close>

lemma count_simps [simp]:
  "count [] sep = 0"
  "count (c # cs) sep = (if c = sep then Suc (count cs sep) else count cs sep)"
  "count (xs @ ys) sep = count xs sep + count ys sep"
  by (simp_all add: count_def)

lemma count_notin: "sep \<notin> set s \<Longrightarrow> count s sep = 0"
  by (induction s) auto

lemma split_scan_not_Nil: "split_scan sep m cur s \<noteq> []"
  by (induction s arbitrary: m cur) auto

lemma length_split_scan_unlimited:
  "m < 0 \<Longrightarrow> length (split_scan sep m cur s) = count s sep + 1"
  by (induction s arbitrary: m cur) auto

lemma length_split_scan_limited:
  "0 \<le> m \<Longrightarrow> length (split_scan sep m cur s) = min (nat m) (count s sep) + 1"
proof (induction s arbitrary: m cur)
  case Nil
  then show ?case by simp
next
  case (Cons c cs)
  show ?case
  proof (cases "m = 0")
    case True
    then show ?thesis by simp
  next
    case False
    with Cons.prems have m: "0 \<le> m - 1" "nat m = Suc (nat (m - 1))" by auto
    show ?thesis
      using False Cons.IH [OF m(1)] Cons.IH [OF Cons.prems] m(2)
      by auto
  qed
qed

lemma split_scan_few_separators:
  "0 \<le> m \<Longrightarrow> count s sep \<le> nat m \<Longrightarrow> m' < 0 \<Longrightarrow>
   split_scan sep m cur s = split_scan sep m' cur s"
proof (induction s arbitrary: m m' cur)
  case Nil
  then show ?case by simp
next
  case (Cons c cs)
  show ?case
  proof (cases "c = sep")
    case True
    with Cons.prems have m: "0 \<le> m - 1" "count cs sep \<le> nat (m - 1)" "m \<noteq> 0" "m' - 1 < 0" "m' \<noteq> 0"
      by auto
    show ?thesis
      using True m(3,5) Cons.IH [OF m(1,2,4)] by simp
  next
    case False
    with Cons.prems have c: "count cs sep \<le> nat m" by simp
    have z: "m = 0 \<Longrightarrow> count cs sep = 0" using c by simp
    show ?thesis
    proof (cases "m = 0")
      case True
      have "split_scan sep m' cur' cs' = [cur' @ cs']" if "count cs' sep = 0" for cur' cs'
        using that Cons.prems(3)
        by (induction cs' arbitrary: cur') (auto split: if_splits)
      from this [of "c # cs" cur] True False z show ?thesis
        by simp
    next
      case F: False
      with False Cons.prems(3) Cons.IH [OF Cons.prems(1) c Cons.prems(3)]
      show ?thesis by auto
    qed
  qed
qed

lemma join_Cons: "join sep (p # ps) = (if ps = [] then p else p @ sep # join sep ps)"
  by (cases ps) simp_all

lemma join_split_scan: "join sep (split_scan sep m cur s) = cur @ s"
  by (induction s arbitrary: m cur) (auto simp: join_Cons split_scan_not_Nil)

lemma butlast_split_scan:
  "sep \<notin> set cur \<Longrightarrow> \<forall>p \<in> set (butlast (split_scan sep m cur s)). sep \<notin> set p"
proof (induction s arbitrary: m cur)
  case Nil
  then show ?case by simp
next
  case (Cons c cs)
  have a: "\<forall>p \<in> set (butlast (split_scan sep (m - 1) [] cs)). sep \<notin> set p"
    by (rule Cons.IH) simp
  have b: "c \<noteq> sep \<Longrightarrow> \<forall>p \<in> set (butlast (split_scan sep m (cur @ [c]) cs)). sep \<notin> set p"
    using Cons.prems by (intro Cons.IH) simp
  show ?case
    using a b Cons.prems by (simp add: split_scan_not_Nil)
qed

lemma unlimited_split_scan:
  "m < 0 \<Longrightarrow> sep \<notin> set cur \<Longrightarrow> \<forall>p \<in> set (split_scan sep m cur s). sep \<notin> set p"
proof (induction s arbitrary: m cur)
  case Nil
  then show ?case by simp
next
  case (Cons c cs)
  have a: "\<forall>p \<in> set (split_scan sep (m - 1) [] cs). sep \<notin> set p"
    using Cons.prems(1) by (intro Cons.IH) simp_all
  have b: "c \<noteq> sep \<Longrightarrow> \<forall>p \<in> set (split_scan sep m (cur @ [c]) cs). sep \<notin> set p"
    using Cons.prems by (intro Cons.IH) simp_all
  show ?case
    using a b Cons.prems by simp
qed

lemma count_last_split_scan:
  "0 \<le> m \<Longrightarrow> nat m \<le> count s sep \<Longrightarrow> sep \<notin> set cur \<Longrightarrow>
   count (last (split_scan sep m cur s)) sep = count s sep - nat m"
proof (induction s arbitrary: m cur)
  case Nil
  then show ?case by (simp add: count_notin)
next
  case (Cons c cs)
  show ?case
  proof (cases "m = 0")
    case True
    with count_notin [OF Cons.prems(3)] show ?thesis by simp
  next
    case False
    show ?thesis
    proof (cases "c = sep")
      case True
      with False Cons.prems have m: "0 \<le> m - 1" "nat (m - 1) \<le> count cs sep" "nat m = Suc (nat (m - 1))"
        by auto
      from Cons.IH [OF m(1,2), of "[]"] True False m(3) show ?thesis
        by (simp add: split_scan_not_Nil)
    next
      case F: False
      with Cons.prems have "nat m \<le> count cs sep" "sep \<notin> set (cur @ [c])" by auto
      from Cons.IH [OF Cons.prems(1) this] False F show ?thesis
        by simp
    qed
  qed
qed

lemma split_not_Nil: "split sep s \<noteq> []"
  by (simp add: split_def split_max_def split_scan_not_Nil)

lemma length_split: "length (split sep s) = count s sep + 1"
  by (simp add: split_def split_max_def length_split_scan_unlimited)

lemma length_split_max:
  "0 \<le> m \<Longrightarrow> length (split_max sep m s) = min (nat m) (count s sep) + 1"
  by (simp add: split_max_def length_split_scan_limited)

lemma split_max_few_separators:
  "0 \<le> m \<Longrightarrow> count s sep \<le> nat m \<Longrightarrow> split_max sep m s = split sep s"
  by (simp add: split_def split_max_def split_scan_few_separators)

lemma join_split_max: "join sep (split_max sep m s) = s"
  by (simp add: split_max_def join_split_scan)

lemma butlast_split_max: "\<forall>p \<in> set (butlast (split_max sep m s)). sep \<notin> set p"
  using butlast_split_scan [of sep "[]" m s] by (simp add: split_max_def)

lemma split_no_separator: "\<forall>p \<in> set (split sep s). sep \<notin> set p"
  using unlimited_split_scan [of "- 1" sep "[]" s] by (simp add: split_def split_max_def)

lemma count_last_split_max:
  "0 \<le> m \<Longrightarrow> nat m \<le> count s sep \<Longrightarrow>
   count (last (split_max sep m s)) sep = count s sep - nat m"
  by (simp add: split_max_def count_last_split_scan)

section \<open>Facts about record construction\<close>

lemma dict_zip_updates: "dict_zip ks vs = AList.updates ks vs []"
  by (simp add: dict_zip_def AList.updates_def)

lemma update_fresh: "k \<notin> fst ` set al \<Longrightarrow> AList.update k v al = al @ [(k, v)]"
  by (induction al) auto

lemma updates_distinct:
  "distinct ks \<Longrightarrow> set ks \<inter> fst ` set al = {} \<Longrightarrow> AList.updates ks vs al = al @ zip ks vs"
proof (induction ks arbitrary: vs al)
  case Nil
  then show ?case by simp
next
  case (Cons k ks)
  show ?case
  proof (cases vs)
    case Nil
    then show ?thesis by simp
  next
    case (Cons v vs')
    have "set ks \<inter> fst ` set (AList.update k v al) = {}"
      using Cons.prems by (auto simp: dom_update)
    with Cons.IH [of "AList.update k v al" vs'] Cons.prems Cons show ?thesis
      by (simp add: update_fresh)
  qed
qed

lemma dict_zip_distinct: "distinct ks \<Longrightarrow> dict_zip ks vs = zip ks vs"
  by (simp add: dict_zip_updates updates_distinct)

lemma distinct_keys_dict_zip: "distinct (keys (dict_zip ks vs))"
  by (simp add: keys_def dict_zip_updates distinct_updates)

lemma map_of_dict_zip: "map_of (dict_zip ks vs) = map_of (rev (zip ks vs))"
  by (simp add: dict_zip_updates updates_conv' map_upds_def)

lemma set_keys_dict_zip: "length ks = length vs \<Longrightarrow> set (keys (dict_zip ks vs)) = set ks"
proof -
  assume l: "length ks = length vs"
  have "set (keys (dict_zip ks vs)) = dom (map_of (dict_zip ks vs))"
    by (simp add: keys_def dom_map_of_conv_image_fst)
  also have "\<dots> = set ks"
    using l by (simp add: dict_zip_updates updates_conv')
  finally show ?thesis .
qed

lemma length_dict_zip: "length ks = length vs \<Longrightarrow> length (dict_zip ks vs) = card (set ks)"
  using distinct_card [OF distinct_keys_dict_zip, of ks vs] set_keys_dict_zip [of ks vs]
  by (simp add: keys_def)

lemma map_of_rev_zip_last:
  "length ks = length vs \<Longrightarrow> i < length ks \<Longrightarrow> \<forall>j. i < j \<and> j < length ks \<longrightarrow> ks ! j \<noteq> ks ! i \<Longrightarrow>
   map_of (rev (zip ks vs)) (ks ! i) = Some (vs ! i)"
proof (induction ks vs arbitrary: i rule: list_induct2)
  case Nil
  then show ?case by simp
next
  case (Cons k ks v vs)
  show ?case
  proof (cases i)
    case 0
    have "k \<notin> set ks"
    proof
      assume "k \<in> set ks"
      then obtain j where "j < length ks" "ks ! j = k" by (auto simp: in_set_conv_nth)
      with Cons.prems(2) [rule_format, of "Suc j"] 0 show False by simp
    qed
    then have "map_of (rev (zip ks vs)) k = None"
      by (auto simp: map_of_eq_None_iff dest: set_zip_leftD)
    with 0 show ?thesis by (simp add: map_add_def)
  next
    case (Suc i')
    have "\<forall>j. i' < j \<and> j < length ks \<longrightarrow> ks ! j \<noteq> ks ! i'"
    proof (intro allI impI)
      fix j assume "i' < j \<and> j < length ks"
      with Cons.prems(2) [rule_format, of "Suc j"] Suc show "ks ! j \<noteq> ks ! i'" by simp
    qed
    with Cons.IH [of i'] Cons.prems(1) Suc
    have "map_of (rev (zip ks vs)) (ks ! i') = Some (vs ! i')" by simp
    with Suc show ?thesis by (simp add: map_add_def)
  qed
qed

lemma dict_zip_last_wins:
  "length ks = length vs \<Longrightarrow> i < length ks \<Longrightarrow> \<forall>j. i < j \<and> j < length ks \<longrightarrow> ks ! j \<noteq> ks ! i \<Longrightarrow>
   map_of (dict_zip ks vs) (ks ! i) = Some (vs ! i)"
  by (simp add: map_of_dict_zip map_of_rev_zip_last)

lemma dict_zip_last_key:
  assumes "length ks = length vs" "ks \<noteq> []"
  shows "map_of (dict_zip ks vs) (last ks) = Some (last vs)"
proof -
  from assms have vs: "vs \<noteq> []" by auto
  have "\<forall>j. length ks - 1 < j \<and> j < length ks \<longrightarrow> ks ! j \<noteq> ks ! (length ks - 1)"
    by auto
  with assms vs have "map_of (dict_zip ks vs) (ks ! (length ks - 1)) = Some (vs ! (length ks - 1))"
    by (intro dict_zip_last_wins) auto
  with assms vs show ?thesis by (simp add: last_conv_nth)
qed

section \<open>Facts about the loop\<close>

lemma parse_lines_snoc:
  "parse_lines headers num_columns flag (pre @ [line]) =
     process_line headers num_columns flag (parse_lines headers num_columns flag pre)
       (length pre + 2, line)"
  by (simp add: parse_lines_def enumerate_append_eq add.commute)

lemma process_line_records:
  assumes "\<forall>r \<in> set (processed_data st).
             \<exists>parts. r = dict_zip headers parts \<and> int (length parts) = num_columns"
  shows "\<forall>r \<in> set (processed_data (process_line headers num_columns flag st ln)).
             \<exists>parts. r = dict_zip headers parts \<and> int (length parts) = num_columns"
  using assms by (auto simp: process_line_def Let_def)

lemma parse_lines_records:
  "\<forall>r \<in> set (processed_data (parse_lines headers num_columns flag data_lines)).
     \<exists>parts. r = dict_zip headers parts \<and> int (length parts) = num_columns"
proof (induction data_lines rule: rev_induct)
  case Nil
  then show ?case by (simp add: parse_lines_def initial_def)
next
  case (snoc l ls)
  then show ?case
    unfolding parse_lines_snoc by (rule process_line_records)
qed

section \<open>Evaluating the function on the examples\<close>

lemmas eval_defs =
  process_ai_data_def example_env_def example_text_def header_of_def parse_lines_def
  process_line_def initial_def strip_def isspace_def split_def split_max_def count_def
  dict_zip_def msg_not_found_def msg_header_mismatch_def msg_repeated_header_def
  msg_extra_delimiters_def msg_column_count_def msg_no_valid_data_def msg_saved_def
  msg_save_error_def str_int_def str_nat.simps LF_def CR_def DELIMITER_def Let_def
  keys_def duplicate_text_def plain_text_def blank_text_def

lemma example_flag_off:
  "process_ai_data (example_env (S ''in.txt'') (Readable example_text) None) (S ''in.txt'') (S ''out.xlsx'') 3 False =
     Inr (None,
       [S ''Error on line 2: Mismatch in column count. Expected 3, found 4. Row: '' @ [39] @
          S ''1%2%3%4'' @ [39],
        S ''No valid data found to process.''])"
  by (simp add: eval_defs)

lemma example_flag_on:
  "process_ai_data (example_env (S ''in.txt'') (Readable example_text) None) (S ''in.txt'') (S ''out.xlsx'') 3 True =
     Inr (Some [[(S ''a'', S ''1''), (S ''b'', S ''2''), (S ''c'', S ''3%4'')]],
       [S ''Warning on line 2: Extra delimiters found. Extra content was added to the last column.'',
        S ''Data successfully saved to '' @ [39] @ S ''out.xlsx'' @ [39] @ S ''.''])"
  by (simp add: eval_defs)

section \<open>Keys of the emitted records\<close>

text \<open>
  C1. Every record that the function returns has the header sequence as its keys, in
  header order, and so exactly \<open>num_columns\<close> of them, each with a string value,
  provided that the names in the header are pairwise distinct.  The claim as stated,
  for every header of \<open>num_columns\<close> fields, fails when a name is repeated: the header
  \<open>a%a\<close> with the line \<open>1%2\<close> gives a record with the single key \<open>a\<close>.
\<close>

theorem records_follow_header:
  assumes "files env input_file_path = Readable text"
    and "headers = header_of (file_lines [] text)"
    and "distinct headers"
    and "process_ai_data env input_file_path output_file_path num_columns flag =
           Inr (Some df, ws)"
  shows "df \<noteq> [] \<and>
         (\<forall>r \<in> set df. keys r = headers \<and> int (length (keys r)) = num_columns \<and>
            (\<exists>parts. length parts = length headers \<and> r = zip headers parts))"
proof -
  let ?st = "parse_lines headers num_columns flag (tl (file_lines [] text))"
  from assms(1,2,4) have n: "int (length headers) = num_columns"
    by (auto simp: process_ai_data_def Let_def split: if_splits)
  from assms(1,2,4) n have df: "df = processed_data ?st" "df \<noteq> []"
    by (auto simp: process_ai_data_def Let_def split: if_splits option.splits)
  have "keys r = headers \<and> int (length (keys r)) = num_columns \<and>
          (\<exists>parts. length parts = length headers \<and> r = zip headers parts)"
    if "r \<in> set df" for r
  proof -
    from that df(1) parse_lines_records [of headers num_columns flag "tl (file_lines [] text)"]
    obtain parts where p: "r = dict_zip headers parts" "int (length parts) = num_columns"
      by blast
    from p(2) n have l: "length parts = length headers" by simp
    from p(1) assms(3) have z: "r = zip headers parts" by (simp add: dict_zip_distinct)
    from z l n show ?thesis by (auto simp: keys_def)
  qed
  with df(2) show ?thesis by blast
qed

theorem records_follow_header_witness:
  "files (example_env (S ''in.txt'') (Readable example_text) None) (S ''in.txt'') =
     Readable example_text \<and>
   header_of (file_lines [] example_text) = [S ''a'', S ''b'', S ''c''] \<and>
   distinct [S ''a'', S ''b'', S ''c''] \<and>
   process_ai_data (example_env (S ''in.txt'') (Readable example_text) None) (S ''in.txt'')
     (S ''out.xlsx'') 3 True =
     Inr (Some [[(S ''a'', S ''1''), (S ''b'', S ''2''), (S ''c'', S ''3%4'')]],
       [S ''Warning on line 2: Extra delimiters found. Extra content was added to the last column.'',
        S ''Data successfully saved to '' @ [39] @ S ''out.xlsx'' @ [39] @ S ''.'']) \<and>
   keys [(S ''a'', S ''1''), (S ''b'', S ''2''), (S ''c'', S ''3%4'')] = [S ''a'', S ''b'', S ''c''] \<and>
   int (length (keys [(S ''a'', S ''1''), (S ''b'', S ''2''), (S ''c'', S ''3%4'')])) = 3"
proof -
  have f: "files (example_env (S ''in.txt'') (Readable example_text) None) (S ''in.txt'') =
     Readable example_text"
    by (simp add: example_env_def)
  have d: "distinct (header_of (file_lines [] example_text))"
    by (simp add: eval_defs)
  from records_follow_header [OF f refl d example_flag_on] show ?thesis
    by (simp add: eval_defs)
qed

theorem duplicate_header_fewer_keys:
  "int (length (header_of (file_lines [] duplicate_text))) = 2 \<and>
   process_ai_data (example_env (S ''in.txt'') (Readable duplicate_text) None) (S ''in.txt'')
     (S ''out.xlsx'') 2 False =
     Inr (Some [[(S ''a'', S ''2'')]], [msg_saved (S ''out.xlsx'')]) \<and>
   length (keys [(S ''a'', S ''2'')]) = 1 \<and>
   keys [(S ''a'', S ''2'')] \<noteq> header_of (file_lines [] duplicate_text)"
  by (simp add: process_ai_data_def example_env_def duplicate_text_def header_of_def
      parse_lines_def process_line_def initial_def strip_def isspace_def split_def
      split_max_def count_def dict_zip_def keys_def LF_def CR_def DELIMITER_def Let_def)

section \<open>Lines with extra delimiters\<close>

text \<open>
  C2. The loop is entered with \<open>headers\<close> the split of the header line and of length
  \<open>num_columns\<close>.  For a line that is not blank, is not a repeat of the header and has
  more than \<open>num_columns - 1\<close> delimiters: with the flag off, the loop body appends the
  column-count warning and no record; with the flag on, it appends the extra-delimiters
  warning and exactly one record, built from \<open>num_columns\<close> parts that joined by the
  delimiter give the stripped line back, none but the last holding a delimiter, so that
  the last part, the value of the last header name, is the remaining text with its
  delimiters.  In particular the header \<open>a%b%c\<close> with the line \<open>1%2%3%4\<close> and three
  columns gives "Expected 3, found 4" and no data with the flag off, and the record
  \<open>{a: 1, b: 2, c: 3%4}\<close> with the extra-delimiters warning with the flag on.
\<close>

theorem line_with_extra_delimiters:
  assumes "headers = split DELIMITER header_line"
    and "int (length headers) = num_columns"
    and "stripped = strip line"
    and "stripped \<noteq> []"
    and "split DELIMITER stripped \<noteq> headers"
    and "int (count stripped DELIMITER) > num_columns - 1"
    and "parts = split_max DELIMITER (num_columns - 1) stripped"
  shows "process_line headers num_columns False st (line_num, line) =
           st\<lparr>warnings := warnings st @
             [msg_column_count line_num num_columns (count stripped DELIMITER + 1) stripped]\<rparr> \<and>
         process_line headers num_columns True st (line_num, line) =
           st\<lparr>warnings := warnings st @ [msg_extra_delimiters line_num],
              processed_data := processed_data st @ [dict_zip headers parts]\<rparr> \<and>
         int (length parts) = num_columns \<and>
         join DELIMITER parts = stripped \<and>
         (\<forall>p \<in> set (butlast parts). DELIMITER \<notin> set p) \<and>
         count (last parts) DELIMITER = count stripped DELIMITER + 1 - length headers \<and>
         0 < count (last parts) DELIMITER \<and>
         map_of (dict_zip headers parts) (last headers) = Some (last parts) \<and>
         process_ai_data (example_env (S ''in.txt'') (Readable example_text) None) (S ''in.txt'')
           (S ''out.xlsx'') 3 False =
           Inr (None,
             [S ''Error on line 2: Mismatch in column count. Expected 3, found 4. Row: '' @ [39] @
                S ''1%2%3%4'' @ [39],
              S ''No valid data found to process.'']) \<and>
         process_ai_data (example_env (S ''in.txt'') (Readable example_text) None) (S ''in.txt'')
           (S ''out.xlsx'') 3 True =
           Inr (Some [[(S ''a'', S ''1''), (S ''b'', S ''2''), (S ''c'', S ''3%4'')]],
             [S ''Warning on line 2: Extra delimiters found. Extra content was added to the last column.'',
              S ''Data successfully saved to '' @ [39] @ S ''out.xlsx'' @ [39] @ S ''.''])"
proof -
  from assms(1) have ne: "headers \<noteq> []" by (simp add: split_not_Nil)
  with assms(2) have n: "0 \<le> num_columns - 1" "nat (num_columns - 1) = length headers - 1"
    by (cases headers; auto)+
  from n assms(2,6) ne have c: "length headers - 1 < count stripped DELIMITER"
    by (cases headers) auto
  have len: "length parts = length headers"
    using n c ne by (cases headers) (auto simp: assms(7) length_split_max)
  have off: "int (length (split DELIMITER stripped)) \<noteq> num_columns"
    using assms(6) by (simp add: length_split)
  have 1: "process_line headers num_columns False st (line_num, line) =
           st\<lparr>warnings := warnings st @
             [msg_column_count line_num num_columns (count stripped DELIMITER + 1) stripped]\<rparr>"
    using assms(3-5) off by (simp add: process_line_def Let_def length_split)
  have 2: "process_line headers num_columns True st (line_num, line) =
           st\<lparr>warnings := warnings st @ [msg_extra_delimiters line_num],
              processed_data := processed_data st @ [dict_zip headers parts]\<rparr>"
    using assms(2-7) len by (simp add: process_line_def Let_def)
  have 3: "count (last parts) DELIMITER = count stripped DELIMITER + 1 - length headers"
    using count_last_split_max [OF n(1), of stripped DELIMITER] n(2) c ne
    by (cases headers) (auto simp: assms(7))
  have 4: "0 < count (last parts) DELIMITER"
    using 3 c ne by (cases headers) auto
  have 5: "join DELIMITER parts = stripped" "\<forall>p \<in> set (butlast parts). DELIMITER \<notin> set p"
    by (simp_all add: assms(7) join_split_max butlast_split_max)
  have 6: "map_of (dict_zip headers parts) (last headers) = Some (last parts)"
    using len ne by (simp add: dict_zip_last_key)
  from len assms(2) have 7: "int (length parts) = num_columns"
    by simp
  show ?thesis
    using 1 2 3 4 5 6 7 example_flag_off example_flag_on by blast
qed

theorem line_with_extra_delimiters_witness:
  "[S ''a'', S ''b'', S ''c''] = split DELIMITER (S ''a%b%c'') \<and>
   S ''1%2%3%4'' = strip (S ''1%2%3%4'' @ [LF]) \<and>
   split DELIMITER (S ''1%2%3%4'') \<noteq> [S ''a'', S ''b'', S ''c''] \<and>
   int (count (S ''1%2%3%4'') DELIMITER) > 3 - 1 \<and>
   [S ''1'', S ''2'', S ''3%4''] = split_max DELIMITER (3 - 1) (S ''1%2%3%4'') \<and>
   process_line [S ''a'', S ''b'', S ''c''] 3 False initial (2, S ''1%2%3%4'' @ [LF]) =
     initial\<lparr>warnings := [msg_column_count 2 3 4 (S ''1%2%3%4'')]\<rparr> \<and>
   process_line [S ''a'', S ''b'', S ''c''] 3 True initial (2, S ''1%2%3%4'' @ [LF]) =
     initial\<lparr>warnings := [msg_extra_delimiters 2],
       processed_data := [[(S ''a'', S ''1''), (S ''b'', S ''2''), (S ''c'', S ''3%4'')]]\<rparr> \<and>
   count (last [S ''1'', S ''2'', S ''3%4'']) DELIMITER = 1 \<and>
   map_of (dict_zip [S ''a'', S ''b'', S ''c''] [S ''1'', S ''2'', S ''3%4'']) (S ''c'') =
     Some (S ''3%4'')"
proof -
  have h1: "[S ''a'', S ''b'', S ''c''] = split DELIMITER (S ''a%b%c'')"
    by (simp add: eval_defs)
  have h2: "int (length [S ''a'', S ''b'', S ''c'']) = 3"
    by simp
  have h3: "S ''1%2%3%4'' = strip (S ''1%2%3%4'' @ [LF])"
    by (simp add: eval_defs)
  have h4: "S ''1%2%3%4'' \<noteq> []"
    by simp
  have h5: "split DELIMITER (S ''1%2%3%4'') \<noteq> [S ''a'', S ''b'', S ''c'']"
    by (simp add: eval_defs)
  have h6: "int (count (S ''1%2%3%4'') DELIMITER) > 3 - 1"
    by (simp add: eval_defs)
  have h7: "[S ''1'', S ''2'', S ''3%4''] = split_max DELIMITER (3 - 1) (S ''1%2%3%4'')"
    by (simp add: eval_defs)
  from line_with_extra_delimiters [OF h1 h2 h3 h4 h5 h6 h7, of initial 2]
  show ?thesis
    by (simp add: eval_defs)
qed

section \<open>Repeated header rows\<close>

text \<open>
  C3. For either flag value, a line that is not blank after stripping and whose
  unlimited split equals the header sequence appends the repeated-header warning with
  its line number and nothing else; in the loop the line after \<open>pre\<close> has number
  \<open>length pre + 2\<close>.  The claim as stated, for every data line, fails for a blank line
  under an empty header: the split of the empty string is the list of one empty string,
  equal to the header of a file whose first line is empty, yet the blank line is skipped
  before the comparison and no warning is appended.
\<close>

theorem repeated_header_skipped:
  assumes "strip line \<noteq> []"
    and "split DELIMITER (strip line) = headers"
  shows "process_line headers num_columns flag st (line_num, line) =
           st\<lparr>warnings := warnings st @ [msg_repeated_header line_num]\<rparr> \<and>
         parse_lines headers num_columns flag (pre @ [line]) =
           (parse_lines headers num_columns flag pre)
             \<lparr>warnings := warnings (parse_lines headers num_columns flag pre) @
                [msg_repeated_header (length pre + 2)]\<rparr>"
  using assms by (simp add: parse_lines_snoc process_line_def Let_def)

theorem repeated_header_skipped_witness:
  "strip (S ''a%b'' @ [LF]) \<noteq> [] \<and>
   split DELIMITER (strip (S ''a%b'' @ [LF])) = [S ''a'', S ''b''] \<and>
   process_line [S ''a'', S ''b''] 2 False initial (5, S ''a%b'' @ [LF]) =
     initial\<lparr>warnings := [msg_repeated_header 5]\<rparr> \<and>
   process_line [S ''a'', S ''b''] 2 True initial (5, S ''a%b'' @ [LF]) =
     initial\<lparr>warnings := [msg_repeated_header 5]\<rparr> \<and>
   warnings (parse_lines [S ''a'', S ''b''] 2 True [S ''1%2'' @ [LF], S ''a%b'' @ [LF]]) =
     [msg_repeated_header 3]"
proof -
  have h1: "strip (S ''a%b'' @ [LF]) \<noteq> []"
    by (simp add: eval_defs)
  have h2: "split DELIMITER (strip (S ''a%b'' @ [LF])) = [S ''a'', S ''b'']"
    by (simp add: eval_defs)
  from repeated_header_skipped [OF h1 h2, of 2 False initial 5 "[]"]
    repeated_header_skipped [OF h1 h2, of 2 True initial 5 "[S ''1%2'' @ [LF]]"]
  show ?thesis
    by (simp add: eval_defs)
qed

theorem blank_line_like_header:
  "strip [LF] = [] \<and>
   split DELIMITER (strip [LF]) = header_of (file_lines [] blank_text) \<and>
   int (length (header_of (file_lines [] blank_text))) = 1 \<and>
   process_line (header_of (file_lines [] blank_text)) 1 False initial (2, [LF]) = initial \<and>
   process_line (header_of (file_lines [] blank_text)) 1 True initial (2, [LF]) = initial \<and>
   process_ai_data (example_env (S ''in.txt'') (Readable blank_text) None) (S ''in.txt'')
     (S ''out.xlsx'') 1 False = Inr (None, [msg_no_valid_data]) \<and>
   process_ai_data (example_env (S ''in.txt'') (Readable blank_text) None) (S ''in.txt'')
     (S ''out.xlsx'') 1 True = Inr (None, [msg_no_valid_data]) \<and>
   msg_repeated_header 2 \<noteq> msg_no_valid_data"
  by (simp add: process_ai_data_def example_env_def blank_text_def header_of_def
      parse_lines_def process_line_def initial_def strip_def isspace_def split_def
      split_max_def LF_def CR_def DELIMITER_def Let_def msg_repeated_header_def
      msg_no_valid_data_def)

section \<open>Header of the wrong length\<close>

text \<open>
  C4. When the file can be read and its first line splits into a number of fields other
  than \<open>num_columns\<close>, the function returns no data and the header-mismatch message as
  the only warning; the result depends on no later line and on no write.
\<close>

theorem header_mismatch_fatal:
  assumes "files env input_file_path = Readable text"
    and "headers = header_of (file_lines [] text)"
    and "int (length headers) \<noteq> num_columns"
  shows "process_ai_data env input_file_path output_file_path num_columns flag =
           Inr (None, [msg_header_mismatch num_columns (length headers)])"
  using assms by (simp add: process_ai_data_def Let_def)

theorem header_mismatch_fatal_witness:
  "files (example_env (S ''in.txt'') (Readable example_text) None) (S ''in.txt'') =
     Readable example_text \<and>
   int (length (header_of (file_lines [] example_text))) \<noteq> 4 \<and>
   process_ai_data (example_env (S ''in.txt'') (Readable example_text) None) (S ''in.txt'')
     (S ''out.xlsx'') 4 True =
     Inr (None, [S ''Error: Mismatch between expected columns (4) and headers in file (3).''])"
proof -
  have f: "files (example_env (S ''in.txt'') (Readable example_text) None) (S ''in.txt'') =
     Readable example_text"
    by (simp add: example_env_def)
  have h: "int (length (header_of (file_lines [] example_text))) \<noteq> 4"
    by (simp add: eval_defs)
  from header_mismatch_fatal [OF f refl h, of "S ''out.xlsx''" True] f h show ?thesis
    by (simp add: eval_defs)
qed

section \<open>Exceptions\<close>

text \<open>
  C5. The function is to return for every input, each failure reported as warning text
  with no data.  It does not: \<open>open\<close> and the reads are outside every \<open>try\<close>, unlike the
  missing file, which is tested for, and the write, which is guarded.  For a path that
  exists and cannot be opened (a directory), and for a file with a header of the right
  length whose bytes stop decoding as UTF-8 further down, the exception leaves the
  function and no warning list is returned.
\<close>

theorem unreadable_raises:
  "process_ai_data (example_env (S ''data'') (Unreadable OSError) None) (S ''data'')
     (S ''out.xlsx'') 3 False = Inl OSError \<and>
   process_ai_data (example_env (S ''in.txt'') (PartlyReadable example_text UnicodeDecodeError) None)
     (S ''in.txt'') (S ''out.xlsx'') 3 True = Inl UnicodeDecodeError"
  by (simp add: process_ai_data_def example_env_def example_text_def complete_lines_def
      header_of_def strip_def isspace_def split_def split_max_def LF_def CR_def
      DELIMITER_def Let_def)

text \<open>
  Outside these cases the function returns.  When the path holds nothing or a file that
  decodes entirely, the warnings are never empty, and a return without data ends with
  the message of one of the four fatal outcomes.
\<close>

lemma returns_when_absent_or_readable:
  assumes "files env input_file_path = NotFound \<or>
           files env input_file_path = Readable content"
  shows "\<exists>df ws. process_ai_data env input_file_path output_file_path num_columns flag =
             Inr (df, ws) \<and> ws \<noteq> [] \<and>
           (df = None \<longrightarrow>
              last ws = msg_not_found input_file_path \<or>
              (\<exists>m. last ws = msg_header_mismatch num_columns m) \<or>
              last ws = msg_no_valid_data \<or>
              (\<exists>e. last ws = msg_save_error e))"
  using assms
proof
  assume "files env input_file_path = NotFound"
  then show ?thesis by (simp add: process_ai_data_def)
next
  assume "files env input_file_path = Readable content"
  then show ?thesis
    by (auto simp: process_ai_data_def Let_def split: option.splits)
qed

text \<open>
  A problem with one line is never fatal: the loop body only appends, at most one record
  and at most two warnings, and the loop goes on to the next line.
\<close>

lemma process_line_appends:
  "\<exists>ws rs. length ws \<le> 2 \<and> length rs \<le> 1 \<and>
     process_line headers num_columns flag st ln =
       st\<lparr>warnings := warnings st @ ws, processed_data := processed_data st @ rs\<rparr>"
proof -
  have a: "st = st\<lparr>warnings := warnings st @ [], processed_data := processed_data st @ []\<rparr>"
    by simp
  let ?P = "\<lambda>t. \<exists>ws rs. length ws \<le> 2 \<and> length rs \<le> 1 \<and>
     t = st\<lparr>warnings := warnings st @ ws, processed_data := processed_data st @ rs\<rparr>"
  have 0: "?P st"
    using a by (intro exI [of _ "[]"]) simp
  have 1: "?P (st\<lparr>warnings := warnings st @ [w]\<rparr>)" for w
    by (rule exI [of _ "[w]"], rule exI [of _ "[]"]) simp
  have 2: "?P (st\<lparr>processed_data := processed_data st @ [r]\<rparr>)" for r
    by (rule exI [of _ "[]"], rule exI [of _ "[r]"]) simp
  have 3: "?P (st\<lparr>warnings := warnings st @ [w], processed_data := processed_data st @ [r]\<rparr>)" for w r
    by (rule exI [of _ "[w]"], rule exI [of _ "[r]"]) simp
  have 4: "?P (st\<lparr>warnings := warnings st @ [w, v]\<rparr>)" for w v
    by (rule exI [of _ "[w, v]"], rule exI [of _ "[]"]) simp
  show ?thesis
    using 0 1 2 3 4 by (simp add: process_line_def Let_def)
qed

text \<open>
  A header of the wrong length is reported also when the reads would fail further down,
  since the function returns before them.
\<close>

lemma header_mismatch_partly_readable:
  assumes "files env input_file_path = PartlyReadable content e"
    and "complete_lines content \<noteq> []"
    and "headers = header_of (complete_lines content)"
    and "int (length headers) \<noteq> num_columns"
  shows "process_ai_data env input_file_path output_file_path num_columns flag =
           Inr (None, [msg_header_mismatch num_columns (length headers)])"
  using assms by (simp add: process_ai_data_def Let_def)

section \<open>Failure of the write\<close>

text \<open>
  C6. When at least one record was parsed and the write raises an exception with
  message \<open>e\<close>, the function returns no data, and its warnings are those accumulated by
  the loop followed by the save-error message.
\<close>

theorem export_failure_degrades:
  assumes "files env input_file_path = Readable text"
    and "headers = header_of (file_lines [] text)"
    and "int (length headers) = num_columns"
    and "st = parse_lines headers num_columns flag (tl (file_lines [] text))"
    and "processed_data st \<noteq> []"
    and "to_excel env output_file_path (processed_data st) = Some e"
  shows "process_ai_data env input_file_path output_file_path num_columns flag =
           Inr (None, warnings st @ [msg_save_error e])"
  using assms by (simp add: process_ai_data_def Let_def)

theorem export_failure_degrades_witness:
  "files (example_env (S ''in.txt'') (Readable plain_text) (Some (S ''Permission denied'')))
     (S ''in.txt'') = Readable plain_text \<and>
   int (length (header_of (file_lines [] plain_text))) = 2 \<and>
   processed_data (parse_lines (header_of (file_lines [] plain_text)) 2 False
     (tl (file_lines [] plain_text))) = [[(S ''a'', S ''1''), (S ''b'', S ''2'')]] \<and>
   to_excel (example_env (S ''in.txt'') (Readable plain_text) (Some (S ''Permission denied'')))
     (S ''out.xlsx'') [[(S ''a'', S ''1''), (S ''b'', S ''2'')]] = Some (S ''Permission denied'') \<and>
   process_ai_data (example_env (S ''in.txt'') (Readable plain_text) (Some (S ''Permission denied'')))
     (S ''in.txt'') (S ''out.xlsx'') 2 False =
     Inr (None, [S ''Error saving to Excel file: Permission denied''])"
proof -
  let ?env = "example_env (S ''in.txt'') (Readable plain_text) (Some (S ''Permission denied''))"
  let ?st = "parse_lines (header_of (file_lines [] plain_text)) 2 False
     (tl (file_lines [] plain_text))"
  have f: "files ?env (S ''in.txt'') = Readable plain_text"
    by (simp add: example_env_def)
  have h: "int (length (header_of (file_lines [] plain_text))) = 2"
    by (simp add: eval_defs)
  have p: "processed_data ?st \<noteq> []"
    by (simp add: eval_defs)
  have w: "to_excel ?env (S ''out.xlsx'') (processed_data ?st) = Some (S ''Permission denied'')"
    by (simp add: example_env_def)
  from export_failure_degrades [OF f refl h refl p w] show ?thesis
    by (simp add: eval_defs)
qed

section \<open>No valid data\<close>

text \<open>
  C7. When the header has \<open>num_columns\<close> fields and the loop leaves no record, the
  function returns no data, and its warnings are those accumulated by the loop followed
  by the no-valid-data message.
\<close>

theorem zero_records_fatal:
  assumes "files env input_file_path = Readable text"
    and "headers = header_of (file_lines [] text)"
    and "int (length headers) = num_columns"
    and "st = parse_lines headers num_columns flag (tl (file_lines [] text))"
    and "processed_data st = []"
  shows "process_ai_data env input_file_path output_file_path num_columns flag =
           Inr (None, warnings st @ [msg_no_valid_data])"
  using assms by (simp add: process_ai_data_def Let_def)

theorem zero_records_fatal_witness:
  "files (example_env (S ''in.txt'') (Readable example_text) None) (S ''in.txt'') =
     Readable example_text \<and>
   int (length (header_of (file_lines [] example_text))) = 3 \<and>
   processed_data (parse_lines (header_of (file_lines [] example_text)) 3 False
     (tl (file_lines [] example_text))) = [] \<and>
   process_ai_data (example_env (S ''in.txt'') (Readable example_text) None) (S ''in.txt'')
     (S ''out.xlsx'') 3 False =
     Inr (None,
       [S ''Error on line 2: Mismatch in column count. Expected 3, found 4. Row: '' @ [39] @
          S ''1%2%3%4'' @ [39],
        S ''No valid data found to process.''])"
proof -
  let ?env = "example_env (S ''in.txt'') (Readable example_text) None"
  let ?st = "parse_lines (header_of (file_lines [] example_text)) 3 False
     (tl (file_lines [] example_text))"
  have f: "files ?env (S ''in.txt'') = Readable example_text"
    by (simp add: example_env_def)
  have h: "int (length (header_of (file_lines [] example_text))) = 3"
    by (simp add: eval_defs)
  have p: "processed_data ?st = []"
    by (simp add: eval_defs)
  from zero_records_fatal [OF f refl h refl p, of "S ''out.xlsx''"] show ?thesis
    by (simp add: eval_defs)
qed

section \<open>Blank lines\<close>

text \<open>
  C8. A data line that is blank after stripping white space produces neither a record
  nor a warning, whatever the flag: the loop body leaves both lists as they were.
\<close>

theorem blank_line_silent:
  "strip line = [] \<Longrightarrow>
   process_line headers num_columns ignore_extra_delimiters st (line_num, line) = st"
  by (simp add: process_line_def)

theorem blank_line_silent_witness:
  "strip [32, 9, 10] = [] \<and>
   process_line [[97], [98]] 2 True initial (2, [32, 9, 10]) = initial \<and>
   process_line [[97], [98]] 2 False initial (2, [32, 9, 10]) = initial"
proof -
  have b: "strip [32, 9, 10] = []"
    by (simp add: strip_def isspace_def)
  show ?thesis
    using b blank_line_silent [OF b, of "[[97], [98]]" 2 True initial 2]
      blank_line_silent [OF b, of "[[97], [98]]" 2 False initial 2]
    by simp
qed

section \<open>Repeated names in the header\<close>

text \<open>
  C9. When the header has \<open>num_columns\<close> fields with a repeated name, a line that
  splits into \<open>num_columns\<close> parts and is not a repeat of the header is accepted with no
  warning, for either flag value; its record has fewer than \<open>num_columns\<close> keys, the
  distinct names of the header, and each name maps to the part at its last position.
  The claim as stated, for every line of \<open>num_columns\<close> parts, fails for a line equal to
  the header, which is skipped with the repeated-header warning.
\<close>

theorem duplicate_header_names:
  assumes "int (length headers) = num_columns"
    and "\<not> distinct headers"
    and "parts = split DELIMITER (strip line)"
    and "int (length parts) = num_columns"
    and "parts \<noteq> headers"
  shows "process_line headers num_columns flag st (line_num, line) =
           st\<lparr>processed_data := processed_data st @ [dict_zip headers parts]\<rparr> \<and>
         int (length (keys (dict_zip headers parts))) < num_columns \<and>
         distinct (keys (dict_zip headers parts)) \<and>
         set (keys (dict_zip headers parts)) = set headers \<and>
         (\<forall>i < length headers.
            (\<forall>j. i < j \<and> j < length headers \<longrightarrow> headers ! j \<noteq> headers ! i) \<longrightarrow>
            map_of (dict_zip headers parts) (headers ! i) = Some (parts ! i))"
proof -
  from assms(1,4) have l: "length headers = length parts" by simp
  from assms(2) have two: "2 \<le> length headers"
    by (cases headers; cases "tl headers") auto
  from assms(3) l have c: "count (strip line) DELIMITER = length headers - 1"
    by (simp add: length_split)
  with two have ne: "strip line \<noteq> []" by auto
  from assms(1) two c have m: "0 \<le> num_columns - 1" "count (strip line) DELIMITER \<le> nat (num_columns - 1)"
    "\<not> int (count (strip line) DELIMITER) > num_columns - 1"
    by auto
  have 1: "process_line headers num_columns flag st (line_num, line) =
           st\<lparr>processed_data := processed_data st @ [dict_zip headers parts]\<rparr>"
    using ne assms(3,4,5) m(3) split_max_few_separators [OF m(1,2)]
    by (simp add: process_line_def Let_def)
  have "card (set headers) < length headers"
    using assms(2) card_distinct [of headers] card_length [of headers] by fastforce
  with l assms(1) have 2: "int (length (keys (dict_zip headers parts))) < num_columns"
    by (auto simp: keys_def length_dict_zip)
  show ?thesis
    using 1 2 l by (simp add: distinct_keys_dict_zip set_keys_dict_zip dict_zip_last_wins)
qed

theorem duplicate_header_names_witness:
  "\<not> distinct [S ''a'', S ''a''] \<and>
   split DELIMITER (strip (S ''1%2'' @ [LF])) = [S ''1'', S ''2''] \<and>
   process_line [S ''a'', S ''a''] 2 False initial (2, S ''1%2'' @ [LF]) =
     initial\<lparr>processed_data := [[(S ''a'', S ''2'')]]\<rparr> \<and>
   process_line [S ''a'', S ''a''] 2 True initial (2, S ''1%2'' @ [LF]) =
     initial\<lparr>processed_data := [[(S ''a'', S ''2'')]]\<rparr> \<and>
   int (length (keys (dict_zip [S ''a'', S ''a''] [S ''1'', S ''2'']))) < 2 \<and>
   map_of (dict_zip [S ''a'', S ''a''] [S ''1'', S ''2'']) (S ''a'') = Some (S ''2'')"
proof -
  have h1: "int (length [S ''a'', S ''a'']) = 2"
    by simp
  have h2: "\<not> distinct [S ''a'', S ''a'']"
    by simp
  have h3: "[S ''1'', S ''2''] = split DELIMITER (strip (S ''1%2'' @ [LF]))"
    by (simp add: eval_defs)
  have h4: "int (length [S ''1'', S ''2'']) = 2"
    by simp
  have h5: "[S ''1'', S ''2''] \<noteq> [S ''a'', S ''a'']"
    by simp
  from duplicate_header_names [OF h1 h2 h3 h4 h5, of False initial 2]
    duplicate_header_names [OF h1 h2 h3 h4 h5, of True initial 2]
  show ?thesis
    by (simp add: eval_defs)
qed

theorem duplicate_header_row_skipped:
  "length (split DELIMITER (strip (S ''a%a'' @ [LF]))) = 2 \<and>
   process_line [S ''a'', S ''a''] 2 False initial (2, S ''a%a'' @ [LF]) =
     initial\<lparr>warnings := [msg_repeated_header 2]\<rparr> \<and>
   process_line [S ''a'', S ''a''] 2 True initial (2, S ''a%a'' @ [LF]) =
     initial\<lparr>warnings := [msg_repeated_header 2]\<rparr>"
  by (simp add: process_line_def initial_def strip_def isspace_def split_def
      split_max_def LF_def DELIMITER_def Let_def)

section \<open>The message of a successful run\<close>

text \<open>
  C10. When at least one record was parsed and the write succeeds, the function returns
  the data with a list of warnings that is not empty: its last element is the message
  that the data was saved to the output path, also when the loop gave no warning.
\<close>

theorem success_message_last:
  assumes "files env input_file_path = Readable text"
    and "headers = header_of (file_lines [] text)"
    and "int (length headers) = num_columns"
    and "st = parse_lines headers num_columns flag (tl (file_lines [] text))"
    and "processed_data st \<noteq> []"
    and "to_excel env output_file_path (processed_data st) = None"
    and "ws = warnings st @ [msg_saved output_file_path]"
  shows "process_ai_data env input_file_path output_file_path num_columns flag =
           Inr (Some (processed_data st), ws) \<and>
         ws \<noteq> [] \<and> last ws = msg_saved output_file_path"
  using assms by (simp add: process_ai_data_def Let_def)

theorem success_message_last_witness:
  "files (example_env (S ''in.txt'') (Readable plain_text) None) (S ''in.txt'') =
     Readable plain_text \<and>
   int (length (header_of (file_lines [] plain_text))) = 2 \<and>
   warnings (parse_lines (header_of (file_lines [] plain_text)) 2 False
     (tl (file_lines [] plain_text))) = [] \<and>
   process_ai_data (example_env (S ''in.txt'') (Readable plain_text) None) (S ''in.txt'')
     (S ''out.xlsx'') 2 False =
     Inr (Some [[(S ''a'', S ''1''), (S ''b'', S ''2'')]],
       [S ''Data successfully saved to '' @ [39] @ S ''out.xlsx'' @ [39] @ S ''.''])"
proof -
  let ?env = "example_env (S ''in.txt'') (Readable plain_text) None"
  let ?st = "parse_lines (header_of (file_lines [] plain_text)) 2 False
     (tl (file_lines [] plain_text))"
  have f: "files ?env (S ''in.txt'') = Readable plain_text"
    by (simp add: example_env_def)
  have h: "int (length (header_of (file_lines [] plain_text))) = 2"
    by (simp add: eval_defs)
  have p: "processed_data ?st \<noteq> []"
    by (simp add: eval_defs)
  have w: "to_excel ?env (S ''out.xlsx'') (processed_data ?st) = None"
    by (simp add: example_env_def)
  from success_message_last [OF f refl h refl p w refl] show ?thesis
    by (simp add: eval_defs)
qed

end
